theory Spec2Isabelle
  imports Main
begin

section \<open>Python values used by the bot\<close>

text \<open>
  Strings are byte lists in UTF-8 (\<^typ>\<open>string\<close>). The delimiter \<open>|\<close> is ASCII, so
  splitting acts on bytes as it acts on code points; integer parsing looks at code points
  and decodes the bytes first. Python integers are unbounded, hence \<^typ>\<open>int\<close>.
  Exceptions are values of \<open>exn\<close>; a computation that may raise returns \<open>exn + 'a\<close>.
  The bot defines no exception classes of its own. What it raises are the built-in
  \<open>ValueError\<close> (a token that does not decode), \<open>IndexError\<close> (a selection outside the
  option list, a choice from an empty list), \<open>FileNotFoundError\<close> (no source for a chapter)
  and the HTTP client's \<open>HTTPError\<close> (an error status); \<open>OtherError\<close> stands for whatever
  else the file system, the JSON parser, the HTTP client or the chat transport may raise.
\<close>

datatype exn =
    ValueError
  | IndexError
  | FileNotFoundError
  | HTTPError
  | OtherError string

subsection \<open>\<open>str(int)\<close>: decimal rendering\<close>

definition digit_char :: "nat \<Rightarrow> char" where
  "digit_char d = char_of (48 + d)"

fun dec_digits :: "nat \<Rightarrow> string" where
  "dec_digits n = (if n < 10 then [digit_char n] else dec_digits (n div 10) @ [digit_char (n mod 10)])"

declare dec_digits.simps [simp del]

definition py_str :: "int \<Rightarrow> string" where
  "py_str i = (if i < 0 then CHR ''-'' # dec_digits (nat (- i)) else dec_digits (nat i))"

subsection \<open>\<open>int(str)\<close>: base-10 parsing\<close>

text \<open>
  \<open>int(s)\<close> works on the code points of \<open>s\<close>, which \<open>code_points\<close> reads off the UTF-8
  bytes (a byte list that is not UTF-8 does not come from a \<open>str\<close>; its stray bytes are
  read as U+FFFD). Every code point from 127 on is first replaced: a Unicode white space by
  a blank, a Unicode decimal digit by the ASCII digit of its value, anything else by \<open>?\<close>;
  the code points below 127 stay as they are. In the resulting buffer of ASCII codes the
  white space of the C locale (9 to 13, and 32) is skipped on both sides, and what is left
  has to be one optional sign followed by decimal digits in which single underscores may
  stand between two digits. Anything else raises \<open>ValueError\<close>. So the separators 28 to
  31, which \<open>str.isspace\<close> accepts, are not skipped, while U+00A0 is.

  The tables are the ones of Unicode 14.0, the database of CPython 3.11:
  \<open>unicode_isspace\<close> is \<open>str.isspace\<close> on one code point, and the decimal digits come in
  runs of ten, each starting at a code point of \<open>decimal_zeros\<close> with the value 0.
\<close>

fun utf8_decode :: "nat \<Rightarrow> nat \<Rightarrow> string \<Rightarrow> nat list" where
  \<comment> \<open>\<open>need\<close> continuation bytes are awaited for the code point begun in \<open>acc\<close>\<close>
  "utf8_decode need acc [] = (if need = 0 then [] else [0xFFFD])"
| "utf8_decode need acc (b # bs) =
     (let n = (of_char b :: nat) in
      if need = 0 then
        (if n < 128 then n # utf8_decode 0 0 bs
         else if 192 \<le> n \<and> n < 224 then utf8_decode 1 (n - 192) bs
         else if 224 \<le> n \<and> n < 240 then utf8_decode 2 (n - 224) bs
         else if 240 \<le> n \<and> n < 248 then utf8_decode 3 (n - 240) bs
         else 0xFFFD # utf8_decode 0 0 bs)
      else if 128 \<le> n \<and> n < 192 then
        (if need = 1 then (acc * 64 + (n - 128)) # utf8_decode 0 0 bs
         else utf8_decode (need - 1) (acc * 64 + (n - 128)) bs)
      else 0xFFFD # utf8_decode 0 0 bs)"

definition code_points :: "string \<Rightarrow> nat list" where
  "code_points s = utf8_decode 0 0 s"

definition unicode_isspace :: "nat \<Rightarrow> bool" where
  "unicode_isspace cp =
     ((9 \<le> cp \<and> cp \<le> 13) \<or> (28 \<le> cp \<and> cp \<le> 32) \<or> cp = 0x85 \<or> cp = 0xA0
      \<or> cp = 0x1680 \<or> (0x2000 \<le> cp \<and> cp \<le> 0x200A) \<or> cp = 0x2028 \<or> cp = 0x2029
      \<or> cp = 0x202F \<or> cp = 0x205F \<or> cp = 0x3000)"

definition decimal_zeros :: "nat list" where
  "decimal_zeros =
     [0x30, 0x660, 0x6F0, 0x7C0, 0x966, 0x9E6, 0xA66, 0xAE6,
      0xB66, 0xBE6, 0xC66, 0xCE6, 0xD66, 0xDE6, 0xE50, 0xED0,
      0xF20, 0x1040, 0x1090, 0x17E0, 0x1810, 0x1946, 0x19D0, 0x1A80,
      0x1A90, 0x1B50, 0x1BB0, 0x1C40, 0x1C50, 0xA620, 0xA8D0, 0xA900,
      0xA9D0, 0xA9F0, 0xAA50, 0xABF0, 0xFF10, 0x104A0, 0x10D30, 0x11066,
      0x110F0, 0x11136, 0x111D0, 0x112F0, 0x11450, 0x114D0, 0x11650, 0x116C0,
      0x11730, 0x118E0, 0x11950, 0x11C50, 0x11D50, 0x11DA0, 0x16A60, 0x16AC0,
      0x16B50, 0x1D7CE, 0x1D7D8, 0x1D7E2, 0x1D7EC, 0x1D7F6, 0x1E140, 0x1E2F0,
      0x1E950, 0x1FBF0]"

definition unicode_decimal :: "nat \<Rightarrow> nat option" where
  "unicode_decimal cp =
     (case find (\<lambda>z. z \<le> cp \<and> cp < z + 10) decimal_zeros of
        None \<Rightarrow> None
      | Some z \<Rightarrow> Some (cp - z))"

definition to_ascii :: "nat \<Rightarrow> nat" where
  "to_ascii cp =
     (if cp < 127 then cp
      else if unicode_isspace cp then 32
      else (case unicode_decimal cp of
              Some d \<Rightarrow> 48 + d
            | None \<Rightarrow> 63))"

definition int_buffer :: "string \<Rightarrow> nat list" where
  "int_buffer s = map to_ascii (code_points s)"

definition Py_ISSPACE :: "nat \<Rightarrow> bool" where
  "Py_ISSPACE c = (c \<in> {9, 10, 11, 12, 13, 32})"

definition strip_spaces :: "nat list \<Rightarrow> nat list" where
  "strip_spaces s = rev (dropWhile Py_ISSPACE (rev (dropWhile Py_ISSPACE s)))"

definition ascii_digit :: "nat \<Rightarrow> bool" where
  "ascii_digit c = (48 \<le> c \<and> c \<le> 57)"

definition digit_val :: "nat \<Rightarrow> nat" where
  "digit_val c = c - 48"

fun scan_digits :: "bool \<Rightarrow> nat \<Rightarrow> nat list \<Rightarrow> nat option" where
  \<comment> \<open>the flag says that the previous character was a digit; 95 is the underscore\<close>
  "scan_digits prev_digit acc [] = (if prev_digit then Some acc else None)"
| "scan_digits prev_digit acc (c # cs) =
     (if ascii_digit c then scan_digits True (acc * 10 + digit_val c) cs
      else if c = 95 \<and> prev_digit then scan_digits False acc cs
      else None)"

definition py_int :: "string \<Rightarrow> exn + int" where
  \<comment> \<open>45 is the minus sign, 43 the plus sign\<close>
  "py_int s =
     (case strip_spaces (int_buffer s) of
        [] \<Rightarrow> Inl ValueError
      | c # cs \<Rightarrow>
          if c = 45 then
            (case scan_digits False 0 cs of None \<Rightarrow> Inl ValueError | Some n \<Rightarrow> Inr (- int n))
          else if c = 43 then
            (case scan_digits False 0 cs of None \<Rightarrow> Inl ValueError | Some n \<Rightarrow> Inr (int n))
          else
            (case scan_digits False 0 (c # cs) of None \<Rightarrow> Inl ValueError | Some n \<Rightarrow> Inr (int n)))"

subsection \<open>\<open>str.split(sep)\<close> with a one-character separator\<close>

fun split :: "char \<Rightarrow> string \<Rightarrow> string list" where
  "split sep [] = [[]]"
| "split sep (c # cs) =
     (if c = sep then [] # split sep cs
      else (case split sep cs of
              f # fs \<Rightarrow> (c # f) # fs
            | [] \<Rightarrow> [[c]]))"

text \<open>The list of fields is never empty, so the second branch of the \<open>case\<close> is never taken.\<close>

subsection \<open>List indexing \<open>xs[i]\<close>\<close>

definition py_index :: "'a list \<Rightarrow> int \<Rightarrow> exn + 'a" where
  "py_index xs i =
     (if 0 \<le> i \<and> i < int (length xs) then Inr (xs ! nat i)
      else if i < 0 \<and> - int (length xs) \<le> i then Inr (xs ! nat (int (length xs) + i))
      else Inl IndexError)"

subsection \<open>\<open>sep.join(lines)\<close>\<close>

fun join :: "string \<Rightarrow> string list \<Rightarrow> string" where
  "join sep [] = []"
| "join sep [x] = x"
| "join sep (x # y # ys) = x @ sep @ join sep (y # ys)"

section \<open>Choice tokens\<close>

text \<open>
  \<open>build_keyboard\<close> writes the callback data of a button as the f-string
  \<open>{chapter}|{question['id']}|{i}\<close>; \<open>answer_callback\<close> reads it back with
  \<open>chapter, qid, opt_index = query.data.split("|")\<close> followed by \<open>int(qid)\<close> and
  \<open>int(opt_index)\<close>. Unpacking a list whose length is not three raises \<open>ValueError\<close>.
\<close>

definition choice_token :: "string \<Rightarrow> int \<Rightarrow> int \<Rightarrow> string" where
  "choice_token chapter qid i = chapter @ ''|'' @ py_str qid @ ''|'' @ py_str i"

definition decode_token :: "string \<Rightarrow> exn + (string \<times> int \<times> int)" where
  "decode_token data =
     (case split CHR ''|'' data of
        [chapter, qid, opt_index] \<Rightarrow>
          (case py_int qid of
             Inl e \<Rightarrow> Inl e
           | Inr q \<Rightarrow>
               (case py_int opt_index of
                  Inl e \<Rightarrow> Inl e
                | Inr k \<Rightarrow> Inr (chapter, q, k)))
      | _ \<Rightarrow> Inl ValueError)"

section \<open>Question banks\<close>

text \<open>
  A chapter file is a JSON array of questions
  \<open>{"id": int, "question": str, "options": [{"text": str, "correct": bool?, "explanation": str?}]}\<close>.
  The optional keys are \<^typ>\<open>'a option\<close> fields, \<open>None\<close> standing for an absent key, so that
  \<open>o.get("correct")\<close> and \<open>o.get("explanation", "")\<close> can be written as the source has them.
  The keys \<open>text\<close> and \<open>id\<close> are spelled \<open>opt_text\<close> and \<open>q_id\<close>.
\<close>

record answer_option =
  opt_text :: string
  correct :: "bool option"
  explanation :: "string option"

record question =
  q_id :: int
  question :: string
  options :: "answer_option list"

definition get_correct :: "answer_option \<Rightarrow> bool" where
  \<comment> \<open>truth value of \<open>o.get("correct")\<close>\<close>
  "get_correct opt = (case correct opt of None \<Rightarrow> False | Some b \<Rightarrow> b)"

definition get_explanation :: "answer_option \<Rightarrow> string" where
  \<comment> \<open>\<open>o.get("explanation", "")\<close>\<close>
  "get_explanation opt = (case explanation opt of None \<Rightarrow> [] | Some e \<Rightarrow> e)"

section \<open>The keyboard of a question\<close>

text \<open>One row per option, each row one button \<open>(label, callback_data)\<close>.\<close>

fun keyboard_rows :: "string \<Rightarrow> int \<Rightarrow> nat \<Rightarrow> answer_option list \<Rightarrow> (string \<times> string) list list" where
  "keyboard_rows chapter qid i [] = []"
| "keyboard_rows chapter qid i (opt # rest) =
     [(opt_text opt, choice_token chapter qid (int i))] # keyboard_rows chapter qid (Suc i) rest"

definition build_keyboard :: "question \<Rightarrow> string \<Rightarrow> (string \<times> string) list list" where
  "build_keyboard q chapter = keyboard_rows chapter (q_id q) 0 (options q)"

section \<open>The answer reveal\<close>

definition MARK_QUESTION :: string where
  "MARK_QUESTION = [CHR 0xE2, CHR 0x9D, CHR 0x93]"

definition MARK_CORRECT :: string where
  "MARK_CORRECT = [CHR 0xE2, CHR 0x9C, CHR 0x85]"

definition MARK_WRONG :: string where
  "MARK_WRONG = [CHR 0xE2, CHR 0x9D, CHR 0x8C]"

definition MARK_NEUTRAL :: string where
  "MARK_NEUTRAL = [CHR 0xE2, CHR 0x96, CHR 0xAB, CHR 0xEF, CHR 0xB8, CHR 0x8F]"

definition MARK_BULB :: string where
  "MARK_BULB = [CHR 0xF0, CHR 0x9F, CHR 0x92, CHR 0xA1]"

definition MARK_BOOKS :: string where
  "MARK_BOOKS = [CHR 0xF0, CHR 0x9F, CHR 0x93, CHR 0x9A]"

definition NL :: string where
  "NL = [CHR 0x0A]"

fun first_correct :: "nat \<Rightarrow> answer_option list \<Rightarrow> nat option" where
  \<comment> \<open>\<open>next((i for i, o in enumerate(options) if o.get("correct")), None)\<close>, counting from \<open>i\<close>\<close>
  "first_correct i [] = None"
| "first_correct i (opt # rest) =
     (if get_correct opt then Some i else first_correct (Suc i) rest)"

fun option_lines :: "nat option \<Rightarrow> int \<Rightarrow> nat \<Rightarrow> answer_option list \<Rightarrow> string list" where
  \<comment> \<open>the body of the loop over \<open>enumerate(question["options"])\<close>, counting from \<open>i\<close>\<close>
  "option_lines correct_index selected_index i [] = []"
| "option_lines correct_index selected_index i (opt # rest) =
     (let prefix =
        (if Some i = correct_index then MARK_CORRECT
         else if int i = selected_index then MARK_WRONG
         else MARK_NEUTRAL)
      in (prefix @ '' '' @ opt_text opt)
           # option_lines correct_index selected_index (Suc i) rest)"

definition result_lines :: "question \<Rightarrow> int \<Rightarrow> string list" where
  \<comment> \<open>the list \<open>lines\<close> when the loop is over\<close>
  "result_lines q selected_index =
     (''<b>'' @ MARK_QUESTION @ '' '' @ question q @ ''</b>'' @ NL)
       # option_lines (first_correct 0 (options q)) selected_index 0 (options q)"

definition format_result_text :: "question \<Rightarrow> int \<Rightarrow> exn + string" where
  "format_result_text q selected_index =
     (let lines = result_lines q selected_index in
      case py_index (options q) selected_index of
        Inl e \<Rightarrow> Inl e
      | Inr sel \<Rightarrow>
          (let selected_expl = get_explanation sel in
           Inr (join NL (lines @ [NL @ MARK_BULB @ '' '' @ selected_expl]))))"

section \<open>The world around the bot\<close>

text \<open>
  The file system, the HTTP client, the random generator and the chat transport are
  parameters (\<open>world\<close>). What the bot does to them is recorded in order in the \<open>trace\<close>
  of the state. \<open>local_files name = Some c\<close> says that \<open>questions/name\<close> exists, \<open>c\<close> being
  what opening and parsing it gives; \<open>http_get url\<close> is what \<open>requests.get\<close> gives. The
  outcome of the \<open>k\<close>-th transport call is \<open>tg_outcome k\<close> (\<open>None\<close>: accepted); the
  \<open>k\<close>-th random draw is \<open>rng k\<close>, reduced modulo the length of the sequence chosen from.
  The environment variable \<open>GITHUB_RAW_BASE\<close> is \<open>env_GITHUB_RAW_BASE\<close> (\<open>None\<close>: unset); the
  other configuration fields hold the values the module computes at start.
\<close>

record response =
  status_code :: nat
  json_body :: "exn + question list"

definition raise_for_status :: "response \<Rightarrow> exn option" where
  \<comment> \<open>\<open>requests\<close> raises \<open>HTTPError\<close> for the client and server error codes\<close>
  "raise_for_status r = (if 400 \<le> status_code r \<and> status_code r < 600 then Some HTTPError else None)"

record world =
  CHAT_ID :: string
  QUESTIONS_PER_RUN :: int
  MODE :: string
  CHAPTERS :: "string list"
  env_GITHUB_RAW_BASE :: "string option"
  local_files :: "string \<Rightarrow> (exn + question list) option"
  http_get :: "string \<Rightarrow> exn + response"
  rng :: "nat \<Rightarrow> nat"
  tg_outcome :: "nat \<Rightarrow> exn option"

datatype event =
    FileExists string
  | FileOpen string
  | HttpGet string
  | SendMessage string string string "(string \<times> string) list list"
  | AnswerQuery
  | EditMessageText string "string option"
  | LogSent int string
  | LogSendFailed string exn
  | LogCallbackError exn
  | Sleep

record state =
  trace :: "event list"
  rng_pos :: nat
  tg_calls :: nat

type_synonym 'a io = "state \<Rightarrow> (exn + 'a) \<times> state"

definition return :: "'a \<Rightarrow> 'a io" where
  "return x s = (Inr x, s)"

definition raise :: "exn \<Rightarrow> 'a io" where
  "raise e s = (Inl e, s)"

definition bind :: "'a io \<Rightarrow> ('a \<Rightarrow> 'b io) \<Rightarrow> 'b io" where
  "bind m f s = (case m s of (Inl e, s') \<Rightarrow> (Inl e, s') | (Inr x, s') \<Rightarrow> f x s')"

definition try_except :: "'a io \<Rightarrow> (exn \<Rightarrow> 'a io) \<Rightarrow> 'a io" where
  "try_except m h s = (case m s of (Inl e, s') \<Rightarrow> h e s' | (Inr x, s') \<Rightarrow> (Inr x, s'))"

definition lift :: "exn + 'a \<Rightarrow> 'a io" where
  "lift r s = (r, s)"

definition emit :: "event \<Rightarrow> unit io" where
  "emit ev s = (Inr (), s\<lparr>trace := trace s @ [ev]\<rparr>)"

definition tg_call :: "world \<Rightarrow> event \<Rightarrow> unit io" where
  \<comment> \<open>one awaited call of the chat transport\<close>
  "tg_call w ev s =
     (let s' = s\<lparr>trace := trace s @ [ev], tg_calls := Suc (tg_calls s)\<rparr> in
      case tg_outcome w (tg_calls s) of
        None \<Rightarrow> (Inr (), s')
      | Some e \<Rightarrow> (Inl e, s'))"

definition random_choice :: "world \<Rightarrow> 'a list \<Rightarrow> 'a io" where
  \<comment> \<open>\<open>random.choice(seq)\<close>: \<open>IndexError\<close> on an empty sequence\<close>
  "random_choice w xs s =
     (if xs = [] then (Inl IndexError, s)
      else (Inr (xs ! (rng w (rng_pos s) mod length xs)), s\<lparr>rng_pos := Suc (rng_pos s)\<rparr>))"

section \<open>Configuration\<close>

definition rstrip :: "char \<Rightarrow> string \<Rightarrow> string" where
  "rstrip c s = rev (dropWhile (\<lambda>x. x = c) (rev s))"

definition GITHUB_RAW_BASE :: "world \<Rightarrow> string" where
  \<comment> \<open>\<open>os.environ.get("GITHUB_RAW_BASE", "").rstrip("/") + "/" if os.environ.get("GITHUB_RAW_BASE") else ""\<close>\<close>
  "GITHUB_RAW_BASE w =
     (case env_GITHUB_RAW_BASE w of
        None \<Rightarrow> []
      | Some v \<Rightarrow> if v = [] then [] else rstrip CHR ''/'' v @ ''/'')"

section \<open>Loading a chapter\<close>

definition load_questions :: "world \<Rightarrow> string \<Rightarrow> (question list) io" where
  "load_questions w chapter =
     (let local = chapter @ ''.json'' in
      bind (emit (FileExists local)) (\<lambda>_.
        case local_files w local of
          Some content \<Rightarrow> bind (emit (FileOpen local)) (\<lambda>_. lift content)
        | None \<Rightarrow>
            if GITHUB_RAW_BASE w \<noteq> [] then
              (let url = GITHUB_RAW_BASE w @ chapter @ ''.json'' in
               bind (emit (HttpGet url)) (\<lambda>_.
               bind (lift (http_get w url)) (\<lambda>r.
                 case raise_for_status r of
                   Some e \<Rightarrow> raise e
                 | None \<Rightarrow> lift (json_body r))))
            else raise FileNotFoundError))"

section \<open>Sending questions\<close>

definition send_body :: "world \<Rightarrow> string \<Rightarrow> unit io" where
  \<comment> \<open>the \<open>try\<close> block of \<open>send_one_question\<close>\<close>
  "send_body w chapter =
     bind (load_questions w chapter) (\<lambda>questions.
     bind (random_choice w questions) (\<lambda>q.
       (let text = MARK_BOOKS @ '' <b>'' @ chapter @ ''</b>'' @ NL @ NL @ MARK_QUESTION @ '' '' @ question q in
        bind (tg_call w (SendMessage (CHAT_ID w) text ''HTML'' (build_keyboard q chapter))) (\<lambda>_.
        emit (LogSent (q_id q) chapter)))))"

definition send_one_question :: "world \<Rightarrow> string \<Rightarrow> unit io" where
  "send_one_question w chapter =
     try_except (send_body w chapter) (\<lambda>e. emit (LogSendFailed chapter e))"

definition select_chapter :: "world \<Rightarrow> string io" where
  \<comment> \<open>\<open>random.choice(CHAPTERS) if MODE == "random" else CHAPTERS[0]\<close>\<close>
  "select_chapter w =
     (if MODE w = ''random'' then random_choice w (CHAPTERS w)
      else lift (py_index (CHAPTERS w) 0))"

fun send_loop :: "world \<Rightarrow> nat \<Rightarrow> unit io" where
  \<comment> \<open>the \<open>for\<close> loop of \<open>send_questions\<close> with \<open>k\<close> iterations to go\<close>
  "send_loop w 0 = return ()"
| "send_loop w (Suc k) =
     bind (select_chapter w) (\<lambda>chapter.
     bind (send_one_question w chapter) (\<lambda>_.
     bind (emit Sleep) (\<lambda>_.
     send_loop w k)))"

definition send_questions :: "world \<Rightarrow> unit io" where
  "send_questions w = send_loop w (nat (max 1 (QUESTIONS_PER_RUN w)))"

section \<open>Answering a button click\<close>

fun find_question :: "int \<Rightarrow> question list \<Rightarrow> question option" where
  \<comment> \<open>\<open>next((qq for qq in questions if int(qq.get("id")) == qid), None)\<close>\<close>
  "find_question qid [] = None"
| "find_question qid (qq # rest) = (if q_id qq = qid then Some qq else find_question qid rest)"

definition callback_body :: "world \<Rightarrow> string \<Rightarrow> unit io" where
  \<comment> \<open>the \<open>try\<close> block of \<open>answer_callback\<close>\<close>
  "callback_body w data =
     bind (lift (decode_token data)) (\<lambda>(chapter, qid, opt_index).
     bind (load_questions w chapter) (\<lambda>questions.
       case find_question qid questions of
         None \<Rightarrow> tg_call w (EditMessageText ''Question data not found.'' None)
       | Some q \<Rightarrow>
           bind (lift (format_result_text q opt_index)) (\<lambda>new_text.
           tg_call w (EditMessageText new_text (Some ''HTML'')))))"

definition answer_callback :: "world \<Rightarrow> string \<Rightarrow> unit io" where
  "answer_callback w data =
     bind (tg_call w AnswerQuery) (\<lambda>_.
     try_except (callback_body w data) (\<lambda>e.
       bind (emit (LogCallbackError e)) (\<lambda>_.
       tg_call w (EditMessageText ''An error occurred while processing your answer.'' None))))"

section \<open>Notions used to state the properties\<close>

text \<open>
  The index of the first option whose \<open>correct\<close> field is true, said directly:
  option \<open>i\<close> is marked correct and no earlier option is.
\<close>

definition is_first_correct :: "answer_option list \<Rightarrow> nat \<Rightarrow> bool" where
  "is_first_correct opts i =
     (i < length opts \<and> get_correct (opts ! i) \<and> (\<forall>j < i. \<not> get_correct (opts ! j)))"

definition expected_marker :: "answer_option list \<Rightarrow> int \<Rightarrow> nat \<Rightarrow> string" where
  "expected_marker opts selected_index i =
     (if is_first_correct opts i then MARK_CORRECT
      else if int i = selected_index then MARK_WRONG
      else MARK_NEUTRAL)"

definition marker_of :: "string \<Rightarrow> string" where
  \<comment> \<open>the marker a rendered option line carries: everything before its first blank\<close>
  "marker_of line = takeWhile (\<lambda>c. c \<noteq> CHR '' '') line"

definition success_status :: "nat \<Rightarrow> bool" where
  \<comment> \<open>the successful class of HTTP status codes\<close>
  "success_status n = (200 \<le> n \<and> n < 300)"

definition is_log :: "event \<Rightarrow> bool" where
  "is_log ev = (case ev of LogSent _ _ \<Rightarrow> True | LogSendFailed _ _ \<Rightarrow> True | _ \<Rightarrow> False)"

definition log_chapter :: "event \<Rightarrow> string option" where
  "log_chapter ev =
     (case ev of LogSent _ c \<Rightarrow> Some c | LogSendFailed c _ \<Rightarrow> Some c | _ \<Rightarrow> None)"

section \<open>Examples\<close>

definition example_question :: question where
  "example_question =
     \<lparr>q_id = 1, question = ''2+2=?'', options =
        [\<lparr>opt_text = ''3'', correct = None, explanation = None\<rparr>,
         \<lparr>opt_text = ''4'', correct = Some True, explanation = Some ''basic addition''\<rparr>,
         \<lparr>opt_text = ''5'', correct = None, explanation = None\<rparr>]\<rparr>"

definition example_world :: world where
  "example_world =
     \<lparr>CHAT_ID = ''42'', QUESTIONS_PER_RUN = 3, MODE = ''sequential'',
      CHAPTERS = [''ch1'', ''ch2''],
      env_GITHUB_RAW_BASE = None,
      local_files = (\<lambda>name. if name = ''ch1.json'' then Some (Inr [example_question]) else None),
      http_get = (\<lambda>url. Inl (OtherError ''ConnectionError'')),
      rng = (\<lambda>k. k),
      tg_outcome = (\<lambda>k. if k = 1 then Some (OtherError ''TimedOut'') else None)\<rparr>"

definition initial_state :: state where
  "initial_state = \<lparr>trace = [], rng_pos = 0, tg_calls = 0\<rparr>"

definition example_remote_world :: world where
  "example_remote_world =
     example_world
       \<lparr>env_GITHUB_RAW_BASE := Some ''https://example.org/q//'',
        http_get := (\<lambda>url. if url = ''https://example.org/q/ch2.json''
                             then Inr \<lparr>status_code = 404, json_body = Inl (OtherError ''JSONDecodeError'')\<rparr>
                             else Inl (OtherError ''ConnectionError''))\<rparr>"

definition example_click_state :: state where
  "example_click_state = \<lparr>trace = [], rng_pos = 0, tg_calls = 2\<rparr>"

definition example_stale_world :: world where
  "example_stale_world =
     example_world
       \<lparr>env_GITHUB_RAW_BASE := Some ''https://example.org/q'',
        http_get := (\<lambda>url. if url = ''https://example.org/q/ch2.json''
                             then Inr \<lparr>status_code = 304, json_body = Inr [example_question]\<rparr>
                             else Inl (OtherError ''ConnectionError''))\<rparr>"

text \<open>
  Three tokens as a click may carry them: \<open>ch1|s7|0\<close> with \<open>s\<close> the separator U+001C;
  \<open>ch1|d|d\<close> with \<open>d\<close> the Arabic-Indic digit one (U+0661); and \<open>ch1|d|0\<close> with \<open>d\<close>
  the Arabic-Indic digit two (U+0662).
\<close>

definition token_with_separator :: string where
  "token_with_separator = ''ch1|'' @ [CHR 0x1C] @ ''7|0''"

definition token_arabic_digits :: string where
  "token_arabic_digits = ''ch1|'' @ [CHR 0xD9, CHR 0xA1] @ ''|'' @ [CHR 0xD9, CHR 0xA1]"

definition token_unknown_id :: string where
  "token_unknown_id = ''ch1|'' @ [CHR 0xD9, CHR 0xA2] @ ''|0''"

section \<open>Integers as text\<close>

lemma of_char_digit_char: "d < 10 \<Longrightarrow> (of_char (digit_char d) :: nat) = 48 + d"
  by (simp add: digit_char_def)

lemma scan_dec_digits:
  "scan_digits p acc (map of_char (dec_digits n) @ rest) =
     scan_digits True (acc * 10 ^ length (dec_digits n) + n) rest"
proof (induction n arbitrary: p acc rest rule: dec_digits.induct)
  case (1 n)
  show ?case
  proof (cases "n < 10")
    case True
    then have "dec_digits n = [digit_char n]" by (simp add: dec_digits.simps)
    with True show ?thesis
      by (simp add: of_char_digit_char ascii_digit_def digit_val_def)
  next
    case False
    define L where "L = length (dec_digits (n div 10))"
    define d :: nat where "d = of_char (digit_char (n mod 10))"
    have m: "n mod 10 < 10" by simp
    have d: "ascii_digit d" "digit_val d = n mod 10"
      by (simp_all add: d_def of_char_digit_char [OF m] ascii_digit_def digit_val_def)
    from False have e: "dec_digits n = dec_digits (n div 10) @ [digit_char (n mod 10)]"
      by (simp add: dec_digits.simps)
    have "scan_digits p acc (map of_char (dec_digits n) @ rest) =
        scan_digits p acc (map of_char (dec_digits (n div 10)) @ d # rest)"
      by (simp add: e d_def)
    also have "\<dots> = scan_digits True (acc * 10 ^ L + n div 10) (d # rest)"
      unfolding L_def by (rule 1 [OF False])
    also have "\<dots> = scan_digits True ((acc * 10 ^ L + n div 10) * 10 + n mod 10) rest"
      by (simp add: d)
    also have "(acc * 10 ^ L + n div 10) * 10 + n mod 10 = acc * 10 ^ length (dec_digits n) + n"
      by (simp add: e L_def algebra_simps)
    finally show ?thesis .
  qed
qed

lemma scan_dec_digits_value: "scan_digits False 0 (map of_char (dec_digits n)) = Some n"
  using scan_dec_digits [of False 0 n "[]"] by simp

lemma dec_digits_all_digits: "c \<in> set (dec_digits n) \<Longrightarrow> ascii_digit (of_char c)"
proof (induction n rule: dec_digits.induct)
  case (1 n)
  show ?case
  proof (cases "n < 10")
    case True
    then have "dec_digits n = [digit_char n]" by (simp add: dec_digits.simps)
    with True 1(2) show ?thesis by (simp add: of_char_digit_char ascii_digit_def)
  next
    case False
    have m: "n mod 10 < 10" by simp
    from False have e: "dec_digits n = dec_digits (n div 10) @ [digit_char (n mod 10)]"
      by (simp add: dec_digits.simps)
    from 1(2) e have "c \<in> set (dec_digits (n div 10)) \<or> c = digit_char (n mod 10)" by auto
    then show ?thesis
      using 1(1)[OF False] of_char_digit_char[OF m] by (auto simp: ascii_digit_def)
  qed
qed

lemma dec_digits_nonempty: "dec_digits n \<noteq> []"
  by (cases "n < 10") (simp_all add: dec_digits.simps)

lemma ascii_digit_not_space: "ascii_digit c \<Longrightarrow> \<not> Py_ISSPACE c"
  by (auto simp: ascii_digit_def Py_ISSPACE_def)

lemma ascii_digit_not_sign: "ascii_digit c \<Longrightarrow> c \<noteq> 45 \<and> c \<noteq> 43"
  by (auto simp: ascii_digit_def)

lemma digit_char_not_pipe: "ascii_digit (of_char c) \<Longrightarrow> c \<noteq> CHR ''|''"
  by (auto simp: ascii_digit_def)

lemma utf8_decode_ascii:
  "\<forall>c \<in> set s. (of_char c :: nat) < 128 \<Longrightarrow> utf8_decode 0 0 s = map of_char s"
  by (induction s) (simp_all add: Let_def)

lemma int_buffer_ascii:
  assumes "\<forall>c \<in> set s. (of_char c :: nat) < 127"
  shows "int_buffer s = map of_char s"
proof -
  from assms have "\<forall>c \<in> set s. (of_char c :: nat) < 128" by auto
  then have "code_points s = map of_char s"
    unfolding code_points_def by (rule utf8_decode_ascii)
  with assms show ?thesis by (simp add: int_buffer_def to_ascii_def)
qed

lemma strip_no_space: "\<forall>c \<in> set s. \<not> Py_ISSPACE c \<Longrightarrow> strip_spaces s = s"
proof -
  assume a: "\<forall>c \<in> set s. \<not> Py_ISSPACE c"
  have d: "\<And>t. \<forall>c \<in> set t. \<not> Py_ISSPACE c \<Longrightarrow> dropWhile Py_ISSPACE t = t"
    by (case_tac t) auto
  from a have "dropWhile Py_ISSPACE s = s" by (rule d)
  moreover from a have "dropWhile Py_ISSPACE (rev s) = rev s" by (intro d) simp
  ultimately show ?thesis by (simp add: strip_spaces_def)
qed

lemma py_str_codes:
  "c \<in> set (py_str i) \<Longrightarrow> (of_char c :: nat) = 45 \<or> ascii_digit (of_char c)"
  by (auto simp: py_str_def dest: dec_digits_all_digits split: if_splits)

lemma py_str_no_pipe: "CHR ''|'' \<notin> set (py_str i)"
  using py_str_codes [of "CHR ''|''" i] by (auto simp: ascii_digit_def)

lemma int_buffer_py_str: "int_buffer (py_str i) = map of_char (py_str i)"
proof (rule int_buffer_ascii, rule ballI)
  fix c assume "c \<in> set (py_str i)"
  then show "(of_char c :: nat) < 127"
    using py_str_codes [of c i] by (auto simp: ascii_digit_def)
qed

lemma strip_spaces_py_str:
  "strip_spaces (map of_char (py_str i)) = map of_char (py_str i)"
proof (rule strip_no_space, rule ballI)
  fix c :: nat assume "c \<in> set (map of_char (py_str i))"
  then obtain b where "b \<in> set (py_str i)" "c = of_char b" by auto
  then show "\<not> Py_ISSPACE c"
    using py_str_codes [of b i] by (auto simp: ascii_digit_def Py_ISSPACE_def)
qed

lemma py_int_py_str: "py_int (py_str i) = Inr i"
proof (cases "i < 0")
  case True
  then have p: "map of_char (py_str i) = (45 :: nat) # map of_char (dec_digits (nat (- i)))"
    by (simp add: py_str_def)
  have s: "strip_spaces (45 # map of_char (dec_digits (nat (- i)))) =
      45 # map of_char (dec_digits (nat (- i)))"
    using strip_spaces_py_str [of i] unfolding p .
  show ?thesis
    using True
    by (simp add: py_int_def int_buffer_py_str p s scan_dec_digits_value)
next
  case False
  obtain b bs where e: "dec_digits (nat i) = b # bs"
    using dec_digits_nonempty [of "nat i"] by (cases "dec_digits (nat i)") auto
  then have "ascii_digit (of_char b)" using dec_digits_all_digits [of b "nat i"] by simp
  then have ns: "(of_char b :: nat) \<noteq> 45" "(of_char b :: nat) \<noteq> 43"
    using ascii_digit_not_sign by auto
  have v: "scan_digits False 0 (of_char b # map of_char bs) = Some (nat i)"
    using scan_dec_digits_value [of "nat i"] e by simp
  from False have p: "map of_char (py_str i) = (of_char b :: nat) # map of_char bs"
    by (simp add: py_str_def e)
  have s: "strip_spaces (of_char b # map of_char bs) = (of_char b :: nat) # map of_char bs"
    using strip_spaces_py_str [of i] unfolding p .
  show ?thesis
    using False ns v
    by (simp add: py_int_def int_buffer_py_str p s del: scan_digits.simps)
qed

lemma split_no_sep: "sep \<notin> set xs \<Longrightarrow> split sep xs = [xs]"
  by (induction xs) auto

lemma split_first_field:
  "sep \<notin> set xs \<Longrightarrow> split sep (xs @ sep # rest) = xs # split sep rest"
  by (induction xs) auto

section \<open>Lines of the reveal\<close>

lemma is_first_correct_Cons_0: "is_first_correct (a # opts) 0 \<longleftrightarrow> get_correct a"
  by (simp add: is_first_correct_def)

lemma is_first_correct_Cons_Suc:
  "is_first_correct (a # opts) (Suc n) \<longleftrightarrow> \<not> get_correct a \<and> is_first_correct opts n"
  by (auto simp: is_first_correct_def less_Suc_eq_0_disj)

lemma first_correct_Some:
  "first_correct k opts = Some m \<longleftrightarrow> (k \<le> m \<and> is_first_correct opts (m - k))"
proof (induction opts arbitrary: k)
  case Nil
  show ?case by (simp add: is_first_correct_def)
next
  case (Cons a opts)
  show ?case
  proof (cases "get_correct a")
    case True
    show ?thesis
    proof (cases "m - k")
      case 0
      with True show ?thesis by (auto simp: is_first_correct_Cons_0)
    next
      case (Suc n)
      with True show ?thesis by (auto simp: is_first_correct_Cons_Suc)
    qed
  next
    case False
    show ?thesis
    proof (cases "m - k")
      case 0
      with False show ?thesis by (auto simp: Cons.IH is_first_correct_Cons_0)
    next
      case (Suc n)
      then have "m - Suc k = n" "k < m" by arith+
      with False Suc show ?thesis by (auto simp: Cons.IH is_first_correct_Cons_Suc)
    qed
  qed
qed

lemma first_correct_0: "Some i = first_correct 0 opts \<longleftrightarrow> is_first_correct opts i"
  using first_correct_Some [of 0 opts i] by auto

lemma length_option_lines: "length (option_lines ci sel k xs) = length xs"
  by (induction xs arbitrary: k) (simp_all add: Let_def)

lemma nth_option_lines:
  "i < length xs \<Longrightarrow>
     option_lines ci sel k xs ! i =
       (if Some (k + i) = ci then MARK_CORRECT
        else if int (k + i) = sel then MARK_WRONG
        else MARK_NEUTRAL) @ '' '' @ opt_text (xs ! i)"
proof (induction xs arbitrary: k i)
  case Nil
  then show ?case by simp
next
  case (Cons a xs)
  show ?case
  proof (cases i)
    case 0
    then show ?thesis by (simp add: Let_def)
  next
    case (Suc n)
    with Cons.prems have "n < length xs" by simp
    from Cons.IH [OF this, of "Suc k"] Suc show ?thesis by (simp add: Let_def)
  qed
qed

lemma nth_result_lines:
  "i < length (options q) \<Longrightarrow>
     result_lines q sel ! Suc i = expected_marker (options q) sel i @ '' '' @ opt_text (options q ! i)"
  by (simp add: result_lines_def nth_option_lines expected_marker_def first_correct_0)

lemma length_result_lines: "length (result_lines q sel) = Suc (length (options q))"
  by (simp add: result_lines_def length_option_lines)

lemma marker_of_line:
  "CHR '' '' \<notin> set m \<Longrightarrow> marker_of (m @ CHR '' '' # t) = m"
  by (induction m) (auto simp: marker_of_def)

lemma markers_no_blank:
  "CHR '' '' \<notin> set MARK_CORRECT" "CHR '' '' \<notin> set MARK_WRONG" "CHR '' '' \<notin> set MARK_NEUTRAL"
  by (simp_all add: MARK_CORRECT_def MARK_WRONG_def MARK_NEUTRAL_def)

lemma markers_distinct:
  "MARK_CORRECT \<noteq> MARK_WRONG" "MARK_CORRECT \<noteq> MARK_NEUTRAL" "MARK_WRONG \<noteq> MARK_NEUTRAL"
  by (simp_all add: MARK_CORRECT_def MARK_WRONG_def MARK_NEUTRAL_def)

lemma marker_of_expected:
  "marker_of (expected_marker opts sel i @ CHR '' '' # t) = expected_marker opts sel i"
  by (rule marker_of_line) (simp add: expected_marker_def markers_no_blank)

lemma join_snoc: "xs \<noteq> [] \<Longrightarrow> join sep (xs @ [x]) = join sep xs @ sep @ x"
  by (induction sep xs rule: join.induct) simp_all

lemma result_lines_nonempty: "result_lines q sel \<noteq> []"
  by (simp add: result_lines_def)

section \<open>Effects of loading and of the callback\<close>

lemmas io_defs = bind_def return_def raise_def lift_def emit_def try_except_def Let_def

lemmas py_int_eval = py_int_def int_buffer_def code_points_def to_ascii_def unicode_isspace_def
  unicode_decimal_def decimal_zeros_def strip_spaces_def Py_ISSPACE_def ascii_digit_def
  digit_val_def Let_def

lemma load_questions_trace:
  "\<exists>evs. trace (snd (load_questions w ch s)) = trace s @ evs
         \<and> (\<forall>ev \<in> set evs. \<not> is_log ev \<and> ev \<noteq> Sleep)"
  by (auto simp: load_questions_def io_defs is_log_def split: sum.splits option.splits)

lemma load_questions_tg_calls: "tg_calls (snd (load_questions w ch s)) = tg_calls s"
  by (auto simp: load_questions_def io_defs split: sum.splits option.splits)

lemma load_questions_rng_pos: "rng_pos (snd (load_questions w ch s)) = rng_pos s"
  by (auto simp: load_questions_def io_defs split: sum.splits option.splits)

lemma py_int_error: "py_int t = Inl e \<Longrightarrow> e = ValueError"
  by (auto simp: py_int_def split: list.splits if_splits option.splits)

lemma decode_token_error: "decode_token data = Inl e \<Longrightarrow> e = ValueError"
  by (auto simp: decode_token_def split: list.splits sum.splits dest: py_int_error)

lemma decode_token_malformed:
  assumes "length (split CHR ''|'' data) \<noteq> 3
         \<or> (\<exists>e. py_int (split CHR ''|'' data ! 1) = Inl e)
         \<or> (\<exists>e. py_int (split CHR ''|'' data ! 2) = Inl e)"
  shows "decode_token data = Inl ValueError"
proof (cases "decode_token data")
  case (Inl e)
  then show ?thesis using decode_token_error by blast
next
  case (Inr t)
  then have False using assms
    by (auto simp: decode_token_def split: list.splits sum.splits)
  then show ?thesis ..
qed

lemma find_question_None: "\<forall>qq \<in> set questions. q_id qq \<noteq> qid \<Longrightarrow> find_question qid questions = None"
  by (induction questions) simp_all

section \<open>Effects of a batch\<close>

lemma send_body_effect:
  "\<exists>evs. trace (snd (send_body w c s)) = trace s @ evs
     \<and> Sleep \<notin> set evs
     \<and> (case fst (send_body w c s) of
           Inl e \<Rightarrow> filter is_log evs = []
         | Inr _ \<Rightarrow> (\<exists>n. filter is_log evs = [LogSent n c]))"
proof -
  obtain evs where l: "trace (snd (load_questions w c s)) = trace s @ evs"
      and n: "\<forall>ev \<in> set evs. \<not> is_log ev \<and> ev \<noteq> Sleep"
    using load_questions_trace by blast
  obtain r s1 where e: "load_questions w c s = (r, s1)" by (cases "load_questions w c s")
  with l have t: "trace s1 = trace s @ evs" by simp
  from n have f: "filter is_log evs = []" "Sleep \<notin> set evs" by (auto simp: filter_empty_conv)
  show ?thesis
    using e t f
    by (auto simp: send_body_def io_defs random_choice_def tg_call_def is_log_def
             split: sum.splits option.splits)
qed

lemma send_one_question_effect:
  "fst (send_one_question w c s) = Inr ()
     \<and> (\<exists>evs l. trace (snd (send_one_question w c s)) = trace s @ evs
           \<and> Sleep \<notin> set evs \<and> filter is_log evs = [l] \<and> log_chapter l = Some c)"
proof -
  obtain evs where l: "trace (snd (send_body w c s)) = trace s @ evs"
      and n: "Sleep \<notin> set evs"
      and k: "case fst (send_body w c s) of
           Inl e \<Rightarrow> filter is_log evs = []
         | Inr _ \<Rightarrow> (\<exists>n. filter is_log evs = [LogSent n c])"
    using send_body_effect by blast
  obtain r s1 where e: "send_body w c s = (r, s1)" by (cases "send_body w c s")
  show ?thesis
  proof (cases r)
    case (Inl x)
    with e l n k show ?thesis
      by (simp add: send_one_question_def io_defs is_log_def log_chapter_def)
  next
    case (Inr u)
    with e l n k show ?thesis
      by (auto simp: send_one_question_def io_defs is_log_def log_chapter_def)
  qed
qed

lemma select_chapter_effect:
  assumes "CHAPTERS w \<noteq> []"
  shows "\<exists>c. fst (select_chapter w s) = Inr c \<and> c \<in> set (CHAPTERS w)
           \<and> (MODE w \<noteq> ''random'' \<longrightarrow> c = hd (CHAPTERS w))
           \<and> trace (snd (select_chapter w s)) = trace s"
  using assms
  by (auto simp: select_chapter_def random_choice_def py_index_def io_defs hd_conv_nth)

lemma send_loop_effect:
  assumes "CHAPTERS w \<noteq> []"
  shows "fst (send_loop w k s) = Inr ()
     \<and> (\<exists>evs. trace (snd (send_loop w k s)) = trace s @ evs
           \<and> length (filter is_log evs) = k
           \<and> length (filter (\<lambda>ev. ev = Sleep) evs) = k
           \<and> (MODE w \<noteq> ''random'' \<longrightarrow>
                (\<forall>ev \<in> set evs. is_log ev \<longrightarrow> log_chapter ev = Some (hd (CHAPTERS w)))))"
proof (induction k arbitrary: s)
  case 0
  show ?case by (simp add: io_defs)
next
  case (Suc k)
  obtain c where c: "fst (select_chapter w s) = Inr c"
      "MODE w \<noteq> ''random'' \<longrightarrow> c = hd (CHAPTERS w)"
      "trace (snd (select_chapter w s)) = trace s"
    using select_chapter_effect [OF assms] by blast
  obtain s1 where s1: "select_chapter w s = (Inr c, s1)" "trace s1 = trace s"
    using c by (cases "select_chapter w s") auto
  obtain evs l where q: "fst (send_one_question w c s1) = Inr ()"
      "trace (snd (send_one_question w c s1)) = trace s1 @ evs"
      "Sleep \<notin> set evs" "filter is_log evs = [l]" "log_chapter l = Some c"
    using send_one_question_effect [of w c s1] by blast
  obtain s2 where s2: "send_one_question w c s1 = (Inr (), s2)" "trace s2 = trace s @ evs"
    using q s1 by (cases "send_one_question w c s1") auto
  define s3 where "s3 = s2\<lparr>trace := trace s2 @ [Sleep]\<rparr>"
  from Suc.IH [of s3] obtain evs' where r: "fst (send_loop w k s3) = Inr ()"
      "trace (snd (send_loop w k s3)) = trace s3 @ evs'"
      "length (filter is_log evs') = k"
      "length (filter (\<lambda>ev. ev = Sleep) evs') = k"
      "MODE w \<noteq> ''random'' \<longrightarrow>
                (\<forall>ev \<in> set evs'. is_log ev \<longrightarrow> log_chapter ev = Some (hd (CHAPTERS w)))"
    by blast
  have u: "send_loop w (Suc k) s = send_loop w k s3"
    by (simp add: io_defs s1 s2 s3_def)
  have ns: "filter (\<lambda>ev. ev = Sleep) evs = []"
    using q(3) by (auto simp: filter_empty_conv)
  have lc: "\<forall>ev \<in> set evs. is_log ev \<longrightarrow> ev = l"
  proof
    fix ev assume "ev \<in> set evs"
    show "is_log ev \<longrightarrow> ev = l"
    proof
      assume "is_log ev"
      with \<open>ev \<in> set evs\<close> have "ev \<in> set (filter is_log evs)" by simp
      with q(4) show "ev = l" by simp
    qed
  qed
  have t: "trace (snd (send_loop w (Suc k) s)) = trace s @ (evs @ Sleep # evs')"
    unfolding u r(2) by (simp add: s3_def s2(2))
  have "length (filter is_log (evs @ Sleep # evs')) = Suc k"
    by (simp add: q(4) r(3) is_log_def)
  moreover have "length (filter (\<lambda>ev. ev = Sleep) (evs @ Sleep # evs')) = Suc k"
    by (simp add: ns r(4))
  moreover have "MODE w \<noteq> ''random'' \<longrightarrow>
      (\<forall>ev \<in> set (evs @ Sleep # evs'). is_log ev \<longrightarrow> log_chapter ev = Some (hd (CHAPTERS w)))"
    using lc q(5) c(2) r(5) by (auto simp: is_log_def)
  moreover have "fst (send_loop w (Suc k) s) = Inr ()"
    unfolding u by (rule r(1))
  ultimately show ?case using t by (intro conjI exI [of _ "evs @ Sleep # evs'"])
qed

section \<open>A batch of three with a failing second send\<close>

lemma scenario_batch_of_three:
  "filter is_log (trace (snd (send_questions example_world initial_state))) =
     [LogSent 1 ''ch1'', LogSendFailed ''ch1'' (OtherError ''TimedOut''), LogSent 1 ''ch1'']"
  by (simp add: send_questions_def send_one_question_def send_body_def select_chapter_def
        load_questions_def random_choice_def tg_call_def py_index_def io_defs is_log_def
        example_world_def initial_state_def example_question_def numeral_3_eq_3)


section \<open>A click whose token is written in Arabic-Indic digits\<close>

lemma decode_token_arabic_digits: "decode_token token_arabic_digits = Inr (''ch1'', 1, 1)"
  by (simp add: decode_token_def token_arabic_digits_def py_int_eval)

lemma decode_token_with_separator: "decode_token token_with_separator = Inl ValueError"
  by (simp add: decode_token_def token_with_separator_def py_int_eval)

lemma scenario_arabic_digits_reveal:
  "\<exists>new_text. format_result_text example_question 1 = Inr new_text
     \<and> answer_callback example_world token_arabic_digits example_click_state =
         (Inr (), \<lparr>trace = [AnswerQuery, FileExists ''ch1.json'', FileOpen ''ch1.json'',
                             EditMessageText new_text (Some ''HTML'')],
                   rng_pos = 0, tg_calls = 4\<rparr>)"
proof -
  obtain new_text where f: "format_result_text example_question 1 = Inr new_text"
    by (simp add: format_result_text_def py_index_def example_question_def)
  have q: "q_id example_question = 1"
    by (simp add: example_question_def)
  have l: "local_files example_world ''ch1.json'' = Some (Inr [example_question])"
    by (simp add: example_world_def)
  have a: "tg_outcome example_world 2 = None" "tg_outcome example_world 3 = None"
    by (simp_all add: example_world_def)
  have "answer_callback example_world token_arabic_digits example_click_state =
         (Inr (), \<lparr>trace = [AnswerQuery, FileExists ''ch1.json'', FileOpen ''ch1.json'',
                             EditMessageText new_text (Some ''HTML'')],
                   rng_pos = 0, tg_calls = 4\<rparr>)"
    by (simp add: answer_callback_def callback_body_def decode_token_arabic_digits
          load_questions_def tg_call_def io_defs example_click_state_def q l a f)
  with f show ?thesis by blast
qed

section \<open>Properties\<close>

text \<open>
  C1. Round trip of the choice token: for every chapter name without the delimiter \<open>|\<close>,
  every integer question id and every integer option index, decoding the token that
  the keyboard builder writes gives back the chapter, the id and the index.
\<close>

theorem token_round_trip:
  "CHR ''|'' \<notin> set chapter \<Longrightarrow>
     decode_token (choice_token chapter qid i) = Inr (chapter, qid, i)"
proof -
  assume a: "CHR ''|'' \<notin> set chapter"
  have "split CHR ''|'' (choice_token chapter qid i) = [chapter, py_str qid, py_str i]"
    using a by (simp add: choice_token_def split_first_field split_no_sep py_str_no_pipe)
  then show ?thesis by (simp add: decode_token_def py_int_py_str)
qed

theorem token_round_trip_witness:
  "CHR ''|'' \<notin> set ''ch1'' \<and> decode_token (choice_token ''ch1'' 7 2) = Inr (''ch1'', 7, 2)"
  using token_round_trip [of "''ch1''" 7 2] by simp

text \<open>
  C2. Marking of the options: for a selected index within \<open>0 \<le> sel < len(options)\<close> the
  reveal is the join of the header, one line per option in the original order, and the
  explanation line. Line \<open>i\<close> is the marker, a blank and the text of option \<open>i\<close>; the marker
  is the correct-marker exactly when \<open>i\<close> is the index of the first option whose \<open>correct\<close>
  field is true, the incorrect-marker exactly when \<open>i\<close> is the selected index and not that
  index, and the neutral marker otherwise. When no option is marked correct, no line carries
  the correct-marker.
\<close>

theorem render_marks_options:
  assumes "0 \<le> sel" and "sel < int (length (options q))"
  shows "format_result_text q sel =
           Inr (join NL (result_lines q sel @ [NL @ MARK_BULB @ '' '' @ get_explanation (options q ! nat sel)]))
       \<and> length (result_lines q sel) = Suc (length (options q))
       \<and> (\<forall>i < length (options q).
            result_lines q sel ! Suc i = expected_marker (options q) sel i @ '' '' @ opt_text (options q ! i)
          \<and> (marker_of (result_lines q sel ! Suc i) = MARK_CORRECT \<longleftrightarrow> is_first_correct (options q) i)
          \<and> (marker_of (result_lines q sel ! Suc i) = MARK_WRONG \<longleftrightarrow>
                int i = sel \<and> \<not> is_first_correct (options q) i)
          \<and> (marker_of (result_lines q sel ! Suc i) = MARK_NEUTRAL \<longleftrightarrow>
                int i \<noteq> sel \<and> \<not> is_first_correct (options q) i))
       \<and> ((\<forall>opt \<in> set (options q). \<not> get_correct opt) \<longrightarrow>
            (\<forall>i < length (options q). marker_of (result_lines q sel ! Suc i) \<noteq> MARK_CORRECT))"
proof -
  have a: "format_result_text q sel =
           Inr (join NL (result_lines q sel @ [NL @ MARK_BULB @ '' '' @ get_explanation (options q ! nat sel)]))"
    using assms by (simp add: format_result_text_def py_index_def)
  have m: "marker_of (result_lines q sel ! Suc i) = expected_marker (options q) sel i"
    if "i < length (options q)" for i
    using that by (simp add: nth_result_lines marker_of_expected)
  have b: "(marker_of (result_lines q sel ! Suc i) = MARK_CORRECT \<longleftrightarrow> is_first_correct (options q) i)
          \<and> (marker_of (result_lines q sel ! Suc i) = MARK_WRONG \<longleftrightarrow>
                int i = sel \<and> \<not> is_first_correct (options q) i)
          \<and> (marker_of (result_lines q sel ! Suc i) = MARK_NEUTRAL \<longleftrightarrow>
                int i \<noteq> sel \<and> \<not> is_first_correct (options q) i)"
    if "i < length (options q)" for i
    using markers_distinct markers_distinct [symmetric]
    by (simp add: m [OF that] expected_marker_def)
  have c: "marker_of (result_lines q sel ! Suc i) \<noteq> MARK_CORRECT"
    if "\<forall>opt \<in> set (options q). \<not> get_correct opt" and "i < length (options q)" for i
  proof -
    from that have "\<not> is_first_correct (options q) i" by (simp add: is_first_correct_def)
    with b [OF that(2)] show ?thesis by simp
  qed
  show ?thesis using a b c by (simp add: length_result_lines nth_result_lines)
qed

theorem render_marks_options_witness:
  "(0::int) \<le> 0 \<and> 0 < int (length (options example_question))
     \<and> length (result_lines example_question 0) = 4
     \<and> marker_of (result_lines example_question 0 ! Suc 0) = MARK_WRONG
     \<and> marker_of (result_lines example_question 0 ! Suc 1) = MARK_CORRECT
     \<and> marker_of (result_lines example_question 0 ! Suc 2) = MARK_NEUTRAL"
proof -
  have h: "(0::int) \<le> 0" "0 < int (length (options example_question))"
    by (simp_all add: example_question_def)
  have f: "\<not> is_first_correct (options example_question) 0"
    "is_first_correct (options example_question) 1"
    "\<not> is_first_correct (options example_question) 2"
    by (simp_all add: is_first_correct_def example_question_def get_correct_def)
  have l: "length (options example_question) = 3"
    by (simp add: example_question_def)
  note t = render_marks_options [OF h]
  from t l have n: "length (result_lines example_question 0) = 4"
    by simp
  from t have m: "\<forall>i < length (options example_question).
       result_lines example_question 0 ! Suc i =
         expected_marker (options example_question) 0 i @ '' '' @ opt_text (options example_question ! i)
     \<and> (marker_of (result_lines example_question 0 ! Suc i) = MARK_CORRECT
          \<longleftrightarrow> is_first_correct (options example_question) i)
     \<and> (marker_of (result_lines example_question 0 ! Suc i) = MARK_WRONG
          \<longleftrightarrow> int i = 0 \<and> \<not> is_first_correct (options example_question) i)
     \<and> (marker_of (result_lines example_question 0 ! Suc i) = MARK_NEUTRAL
          \<longleftrightarrow> int i \<noteq> 0 \<and> \<not> is_first_correct (options example_question) i)"
    by blast
  have "(0::nat) < length (options example_question)" using l by simp
  with m have "marker_of (result_lines example_question 0 ! Suc 0) = MARK_WRONG
          \<longleftrightarrow> int 0 = 0 \<and> \<not> is_first_correct (options example_question) 0"
    by blast
  with f(1) have m0: "marker_of (result_lines example_question 0 ! Suc 0) = MARK_WRONG"
    by simp
  have "(1::nat) < length (options example_question)" using l by simp
  with m f(2) have m1: "marker_of (result_lines example_question 0 ! Suc 1) = MARK_CORRECT"
    by blast
  have "(2::nat) < length (options example_question)" using l by simp
  with m have "marker_of (result_lines example_question 0 ! Suc 2) = MARK_NEUTRAL
          \<longleftrightarrow> int 2 \<noteq> 0 \<and> \<not> is_first_correct (options example_question) 2"
    by blast
  with f(3) have m2: "marker_of (result_lines example_question 0 ! Suc 2) = MARK_NEUTRAL"
    by simp
  from h n m0 m1 m2 show ?thesis by blast
qed

text \<open>
  C3. Selection beyond the options: when \<open>selected_index \<ge> len(options)\<close> the renderer raises
  (\<open>IndexError\<close>, raised by the list access) and returns no text.
\<close>

theorem render_out_of_range:
  "int (length (options q)) \<le> sel \<Longrightarrow> format_result_text q sel = Inl IndexError"
  by (simp add: format_result_text_def py_index_def Let_def)

theorem render_out_of_range_witness:
  "int (length (options example_question)) \<le> 3
     \<and> format_result_text example_question 3 = Inl IndexError"
  using render_out_of_range [of example_question 3] by (simp add: example_question_def)

text \<open>
  C4. Explanation of the selected option: for a selected index within range the text ends
  with a line made of the bulb, a blank and the \<open>explanation\<close> field of the selected
  option, the empty string standing in when that option has no such field.
\<close>

theorem render_appends_selected_explanation:
  assumes "0 \<le> sel" and "sel < int (length (options q))"
  shows "format_result_text q sel =
           Inr (join NL (result_lines q sel) @ NL @ NL @ MARK_BULB @ '' '' @
                (case explanation (options q ! nat sel) of None \<Rightarrow> [] | Some e \<Rightarrow> e))"
  using assms
  by (simp add: format_result_text_def py_index_def Let_def join_snoc result_lines_nonempty
        get_explanation_def)

theorem render_appends_selected_explanation_witness:
  "(0::int) \<le> 0 \<and> 0 < int (length (options example_question))
     \<and> format_result_text example_question 0 =
         Inr (join NL (result_lines example_question 0) @ NL @ NL @ MARK_BULB @ '' '')
     \<and> (0::int) \<le> 1 \<and> 1 < int (length (options example_question))
     \<and> format_result_text example_question 1 =
         Inr (join NL (result_lines example_question 1) @ NL @ NL @ MARK_BULB @ '' basic addition'')"
  using render_appends_selected_explanation [of 0 example_question]
    render_appends_selected_explanation [of 1 example_question]
  by (simp add: example_question_def)

text \<open>
  C5. Sources of a chapter: the local resource \<open><chapter>.json\<close> is looked up first and, when
  it exists, its parsed contents are the result and no HTTP request is made. When it is
  absent and a remote base is configured, exactly one request goes to the base (trailing
  slashes removed), a slash and \<open><chapter>.json\<close>; a response with a client or server
  error status (400 to 599) raises \<open>HTTPError\<close>, and a response with any other status is
  parsed and returned. When the local resource is absent and no remote base is configured,
  \<open>FileNotFoundError\<close> is raised.
\<close>

theorem load_questions_sources:
  "(local_files w (ch @ ''.json'') = Some content \<longrightarrow>
      load_questions w ch s =
        (content, s\<lparr>trace := trace s @ [FileExists (ch @ ''.json''), FileOpen (ch @ ''.json'')]\<rparr>))
 \<and> (local_files w (ch @ ''.json'') = None \<and> env_GITHUB_RAW_BASE w = Some base \<and> base \<noteq> [] \<longrightarrow>
      trace (snd (load_questions w ch s)) =
        trace s @ [FileExists (ch @ ''.json''),
                   HttpGet (rstrip CHR ''/'' base @ ''/'' @ ch @ ''.json'')]
      \<and> (http_get w (rstrip CHR ''/'' base @ ''/'' @ ch @ ''.json'') = Inr r
           \<and> 400 \<le> status_code r \<and> status_code r < 600 \<longrightarrow>
         fst (load_questions w ch s) = Inl HTTPError)
      \<and> (http_get w (rstrip CHR ''/'' base @ ''/'' @ ch @ ''.json'') = Inr r
           \<and> \<not> (400 \<le> status_code r \<and> status_code r < 600) \<longrightarrow>
         fst (load_questions w ch s) = json_body r))
 \<and> (local_files w (ch @ ''.json'') = None
      \<and> (env_GITHUB_RAW_BASE w = None \<or> env_GITHUB_RAW_BASE w = Some []) \<longrightarrow>
      load_questions w ch s =
        (Inl FileNotFoundError, s\<lparr>trace := trace s @ [FileExists (ch @ ''.json'')]\<rparr>))"
proof (intro conjI impI)
  assume "local_files w (ch @ ''.json'') = Some content"
  then show "load_questions w ch s =
        (content, s\<lparr>trace := trace s @ [FileExists (ch @ ''.json''), FileOpen (ch @ ''.json'')]\<rparr>)"
    by (simp add: load_questions_def io_defs)
next
  assume a: "local_files w (ch @ ''.json'') = None \<and> env_GITHUB_RAW_BASE w = Some base \<and> base \<noteq> []"
  then have b: "GITHUB_RAW_BASE w = rstrip CHR ''/'' base @ ''/''"
    by (simp add: GITHUB_RAW_BASE_def)
  from a b show "trace (snd (load_questions w ch s)) =
        trace s @ [FileExists (ch @ ''.json''),
                   HttpGet (rstrip CHR ''/'' base @ ''/'' @ ch @ ''.json'')]"
    by (simp add: load_questions_def io_defs split: sum.splits option.splits)
  {
    assume "http_get w (rstrip CHR ''/'' base @ ''/'' @ ch @ ''.json'') = Inr r
           \<and> 400 \<le> status_code r \<and> status_code r < 600"
    with a b show "fst (load_questions w ch s) = Inl HTTPError"
      by (simp add: load_questions_def io_defs raise_for_status_def)
  }
  {
    assume "http_get w (rstrip CHR ''/'' base @ ''/'' @ ch @ ''.json'') = Inr r
           \<and> \<not> (400 \<le> status_code r \<and> status_code r < 600)"
    with a b show "fst (load_questions w ch s) = json_body r"
      by (auto simp: load_questions_def io_defs raise_for_status_def)
  }
next
  assume a: "local_files w (ch @ ''.json'') = None
      \<and> (env_GITHUB_RAW_BASE w = None \<or> env_GITHUB_RAW_BASE w = Some [])"
  then have "GITHUB_RAW_BASE w = []"
    by (auto simp: GITHUB_RAW_BASE_def)
  with a show "load_questions w ch s =
        (Inl FileNotFoundError, s\<lparr>trace := trace s @ [FileExists (ch @ ''.json'')]\<rparr>)"
    by (simp add: load_questions_def io_defs)
qed

theorem load_questions_sources_witness:
  "local_files example_world (''ch1'' @ ''.json'') = Some (Inr [example_question])
   \<and> load_questions example_world ''ch1'' initial_state =
       (Inr [example_question], initial_state\<lparr>trace := [FileExists ''ch1.json'', FileOpen ''ch1.json'']\<rparr>)
   \<and> local_files example_remote_world (''ch2'' @ ''.json'') = None
   \<and> env_GITHUB_RAW_BASE example_remote_world = Some ''https://example.org/q//''
   \<and> trace (snd (load_questions example_remote_world ''ch2'' initial_state)) =
       [FileExists ''ch2.json'', HttpGet ''https://example.org/q/ch2.json'']
   \<and> fst (load_questions example_remote_world ''ch2'' initial_state) = Inl HTTPError
   \<and> local_files example_stale_world (''ch2'' @ ''.json'') = None
   \<and> env_GITHUB_RAW_BASE example_stale_world = Some ''https://example.org/q''
   \<and> fst (load_questions example_stale_world ''ch2'' initial_state) = Inr [example_question]
   \<and> local_files example_world (''ch2'' @ ''.json'') = None
   \<and> env_GITHUB_RAW_BASE example_world = None
   \<and> load_questions example_world ''ch2'' initial_state =
       (Inl FileNotFoundError, initial_state\<lparr>trace := [FileExists ''ch2.json'']\<rparr>)"
proof -
  have r: "rstrip CHR ''/'' ''https://example.org/q//'' = ''https://example.org/q''"
    "rstrip CHR ''/'' ''https://example.org/q'' = ''https://example.org/q''"
    by (simp_all add: rstrip_def)
  show ?thesis
    using load_questions_sources [where w = example_world and ch = "''ch1''"
        and content = "Inr [example_question]" and s = initial_state]
      load_questions_sources [where w = example_remote_world and ch = "''ch2''"
        and base = "''https://example.org/q//''" and s = initial_state
        and r = "\<lparr>status_code = 404, json_body = Inl (OtherError ''JSONDecodeError'')\<rparr>"]
      load_questions_sources [where w = example_stale_world and ch = "''ch2''"
        and base = "''https://example.org/q''" and s = initial_state
        and r = "\<lparr>status_code = 304, json_body = Inr [example_question]\<rparr>"]
      load_questions_sources [where w = example_world and ch = "''ch2''" and s = initial_state]
    by (simp add: example_world_def example_remote_world_def example_stale_world_def
          initial_state_def r)
qed

text \<open>
  A response whose status is not a successful one does not always raise: with no local
  file for \<open>ch2\<close> and a remote base configured, a response with status 304 that carries a
  question list is parsed and returned.
\<close>

theorem load_questions_non_success_counterexample:
  "local_files example_stale_world ''ch2.json'' = None
   \<and> env_GITHUB_RAW_BASE example_stale_world = Some ''https://example.org/q''
   \<and> http_get example_stale_world ''https://example.org/q/ch2.json'' =
        Inr \<lparr>status_code = 304, json_body = Inr [example_question]\<rparr>
   \<and> \<not> success_status 304
   \<and> load_questions example_stale_world ''ch2'' initial_state =
        (Inr [example_question],
         initial_state\<lparr>trace := [FileExists ''ch2.json'', HttpGet ''https://example.org/q/ch2.json'']\<rparr>)
   \<and> fst (load_questions example_stale_world ''ch2'' initial_state) \<noteq> Inl HTTPError"
  by (simp add: load_questions_def GITHUB_RAW_BASE_def rstrip_def raise_for_status_def io_defs
        success_status_def example_stale_world_def example_world_def initial_state_def)

text \<open>
  C6. Malformed tokens: when the callback data does not split on \<open>|\<close> into exactly three
  fields, or its second or third field is not an integer literal, decoding raises
  \<open>ValueError\<close>; the handler, once the click has been acknowledged, logs the error and asks
  the transport to replace the message by the generic error text, and it returns normally
  when the transport accepts that edit.
\<close>

theorem malformed_token_reported:
  assumes "length (split CHR ''|'' data) \<noteq> 3
         \<or> (\<exists>e. py_int (split CHR ''|'' data ! 1) = Inl e)
         \<or> (\<exists>e. py_int (split CHR ''|'' data ! 2) = Inl e)"
    and "tg_outcome w (tg_calls s) = None"
  shows "decode_token data = Inl ValueError
       \<and> trace (snd (answer_callback w data s)) =
           trace s @ [AnswerQuery, LogCallbackError ValueError,
                      EditMessageText ''An error occurred while processing your answer.'' None]
       \<and> (tg_outcome w (Suc (tg_calls s)) = None \<longrightarrow> fst (answer_callback w data s) = Inr ())"
proof -
  have d: "decode_token data = Inl ValueError"
    using assms(1) by (rule decode_token_malformed)
  show ?thesis
    using assms(2)
    by (simp add: d answer_callback_def callback_body_def tg_call_def io_defs split: option.splits)
qed

theorem malformed_token_reported_witness:
  "py_int (split CHR ''|'' token_with_separator ! 1) = Inl ValueError
   \<and> tg_outcome example_world (tg_calls example_click_state) = None
   \<and> decode_token token_with_separator = Inl ValueError
   \<and> trace (snd (answer_callback example_world token_with_separator example_click_state)) =
        [AnswerQuery, LogCallbackError ValueError,
         EditMessageText ''An error occurred while processing your answer.'' None]
   \<and> fst (answer_callback example_world token_with_separator example_click_state) = Inr ()"
proof -
  have p: "py_int (split CHR ''|'' token_with_separator ! 1) = Inl ValueError"
    by (simp add: token_with_separator_def py_int_eval)
  have a: "tg_outcome example_world (tg_calls example_click_state) = None"
    "tg_outcome example_world (Suc (tg_calls example_click_state)) = None"
    by (simp_all add: example_world_def example_click_state_def)
  have h: "length (split CHR ''|'' token_with_separator) \<noteq> 3
         \<or> (\<exists>e. py_int (split CHR ''|'' token_with_separator ! 1) = Inl e)
         \<or> (\<exists>e. py_int (split CHR ''|'' token_with_separator ! 2) = Inl e)"
    using p by blast
  have t: "trace example_click_state = []"
    by (simp add: example_click_state_def)
  from malformed_token_reported [OF h a(1)] a p t show ?thesis
    by simp
qed

text \<open>
  C7. Unknown question id: for a well-formed token whose chapter loads and holds no question
  with the token's id, the handler replaces the message by \<open>Question data not found.\<close> and
  returns normally (the transport accepting the acknowledgement and the edit).
\<close>

theorem unknown_question_reported:
  assumes "decode_token data = Inr (ch, qid, k)"
    and "load_questions w ch (s\<lparr>trace := trace s @ [AnswerQuery], tg_calls := Suc (tg_calls s)\<rparr>)
           = (Inr questions, s')"
    and "\<forall>qq \<in> set questions. q_id qq \<noteq> qid"
    and "tg_outcome w (tg_calls s) = None"
    and "tg_outcome w (Suc (tg_calls s)) = None"
  shows "answer_callback w data s =
           (Inr (), s'\<lparr>trace := trace s' @ [EditMessageText ''Question data not found.'' None],
                       tg_calls := Suc (Suc (tg_calls s))\<rparr>)"
proof -
  have c: "tg_calls s' = Suc (tg_calls s)"
    using load_questions_tg_calls [of w ch "s\<lparr>trace := trace s @ [AnswerQuery], tg_calls := Suc (tg_calls s)\<rparr>"]
      assms(2)
    by simp
  have f: "find_question qid questions = None"
    using assms(3) by (rule find_question_None)
  show ?thesis
    using assms(1,2,4,5) c f
    by (simp add: answer_callback_def callback_body_def tg_call_def io_defs)
qed

theorem unknown_question_reported_witness:
  "decode_token token_unknown_id = Inr (''ch1'', 2, 0)
   \<and> tg_outcome example_world (tg_calls example_click_state) = None
   \<and> tg_outcome example_world (Suc (tg_calls example_click_state)) = None
   \<and> answer_callback example_world token_unknown_id example_click_state =
        (Inr (), \<lparr>trace = [AnswerQuery, FileExists ''ch1.json'', FileOpen ''ch1.json'',
                            EditMessageText ''Question data not found.'' None],
                  rng_pos = 0, tg_calls = 4\<rparr>)"
proof -
  have d: "decode_token token_unknown_id = Inr (''ch1'', 2, 0)"
    by (simp add: decode_token_def token_unknown_id_def py_int_eval)
  have a: "tg_outcome example_world (tg_calls example_click_state) = None"
    "tg_outcome example_world (Suc (tg_calls example_click_state)) = None"
    by (simp_all add: example_world_def example_click_state_def)
  have l: "load_questions example_world ''ch1''
             (example_click_state\<lparr>trace := trace example_click_state @ [AnswerQuery],
                                  tg_calls := Suc (tg_calls example_click_state)\<rparr>)
           = (Inr [example_question],
              \<lparr>trace = [AnswerQuery, FileExists ''ch1.json'', FileOpen ''ch1.json''],
               rng_pos = 0, tg_calls = 3\<rparr>)"
    by (simp add: load_questions_def io_defs example_world_def example_click_state_def)
  have q: "\<forall>qq \<in> set [example_question]. q_id qq \<noteq> 2"
    by (simp add: example_question_def)
  from unknown_question_reported [OF d l q a] d a show ?thesis
    by (simp add: example_click_state_def)
qed

text \<open>
  C8. Any mode other than \<open>random\<close>: with a non-empty chapter list, every pick gives the first
  configured chapter and leaves the state as it was, and every log record of a batch names
  that chapter.
\<close>

theorem non_random_mode_picks_first:
  assumes "MODE w \<noteq> ''random''" and "CHAPTERS w \<noteq> []"
  shows "select_chapter w s = (Inr (hd (CHAPTERS w)), s)
     \<and> (\<exists>evs. trace (snd (send_questions w s)) = trace s @ evs
           \<and> length (filter is_log evs) = nat (max 1 (QUESTIONS_PER_RUN w))
           \<and> (\<forall>ev \<in> set evs. is_log ev \<longrightarrow> log_chapter ev = Some (hd (CHAPTERS w))))"
proof -
  have "select_chapter w s = (Inr (hd (CHAPTERS w)), s)"
    using assms by (simp add: select_chapter_def py_index_def io_defs hd_conv_nth)
  then show ?thesis
    using send_loop_effect [OF assms(2), of "nat (max 1 (QUESTIONS_PER_RUN w))" s] assms(1)
    unfolding send_questions_def by blast
qed

theorem non_random_mode_picks_first_witness:
  "MODE example_world \<noteq> ''random'' \<and> CHAPTERS example_world \<noteq> []
   \<and> select_chapter example_world initial_state = (Inr ''ch1'', initial_state)"
proof -
  have h: "MODE example_world \<noteq> ''random''" "CHAPTERS example_world \<noteq> []"
    by (simp_all add: example_world_def)
  have c: "hd (CHAPTERS example_world) = ''ch1''"
    by (simp add: example_world_def)
  from non_random_mode_picks_first [OF h, of initial_state] h c show ?thesis
    by simp
qed

text \<open>
  C9. Iterations of a batch: with a non-empty chapter list (the module exits at start
  otherwise), a batch returns normally after exactly \<open>max(1, QUESTIONS_PER_RUN)\<close> iterations,
  each leaving one log record and one pause; a single send never raises, and when its
  \<open>try\<close> block fails with \<open>e\<close> the failure is logged as the last event of that send.
\<close>

theorem batch_attempts_every_iteration:
  assumes "CHAPTERS w \<noteq> []"
  shows "fst (send_questions w s) = Inr ()
     \<and> (\<exists>evs. trace (snd (send_questions w s)) = trace s @ evs
           \<and> length (filter is_log evs) = nat (max 1 (QUESTIONS_PER_RUN w))
           \<and> length (filter (\<lambda>ev. ev = Sleep) evs) = nat (max 1 (QUESTIONS_PER_RUN w)))
     \<and> fst (send_one_question w c s0) = Inr ()
     \<and> (fst (send_body w c s0) = Inl e \<longrightarrow>
          trace (snd (send_one_question w c s0)) = trace (snd (send_body w c s0)) @ [LogSendFailed c e])"
proof -
  have a: "fst (send_one_question w c s0) = Inr ()"
    using send_one_question_effect by blast
  have b: "fst (send_body w c s0) = Inl e \<longrightarrow>
          trace (snd (send_one_question w c s0)) = trace (snd (send_body w c s0)) @ [LogSendFailed c e]"
    by (cases "send_body w c s0") (auto simp: send_one_question_def io_defs)
  show ?thesis
    using send_loop_effect [OF assms, of "nat (max 1 (QUESTIONS_PER_RUN w))" s] a b
    unfolding send_questions_def by blast
qed

theorem batch_attempts_every_iteration_witness:
  "CHAPTERS example_world \<noteq> []
   \<and> fst (send_questions example_world initial_state) = Inr ()
   \<and> (\<exists>evs. trace (snd (send_questions example_world initial_state)) = evs
          \<and> length (filter is_log evs) = 3
          \<and> length (filter (\<lambda>ev. ev = Sleep) evs) = 3)"
proof -
  have h: "CHAPTERS example_world \<noteq> []"
    by (simp add: example_world_def)
  have n: "nat (max 1 (QUESTIONS_PER_RUN example_world)) = 3"
    by (simp add: example_world_def)
  from batch_attempts_every_iteration [OF h, of initial_state] h n show ?thesis
    by (simp add: initial_state_def)
qed

text \<open>
  C10. Negative selections: for \<open>-len(options) \<le> selected_index \<le> -1\<close> the renderer returns a
  text; no option line carries the incorrect-marker, and the explanation appended is the
  \<open>explanation\<close> field of the option at position \<open>len(options) + selected_index\<close> (the empty
  string when that option has no such field).
\<close>

theorem render_negative_index:
  assumes "sel < 0" and "- int (length (options q)) \<le> sel"
  shows "format_result_text q sel =
           Inr (join NL (result_lines q sel) @ NL @ NL @ MARK_BULB @ '' '' @
                (case explanation (options q ! nat (int (length (options q)) + sel)) of
                   None \<Rightarrow> []
                 | Some e \<Rightarrow> e))
       \<and> (\<forall>i < length (options q). marker_of (result_lines q sel ! Suc i) \<noteq> MARK_WRONG)"
proof -
  have a: "format_result_text q sel =
           Inr (join NL (result_lines q sel) @ NL @ NL @ MARK_BULB @ '' '' @
                (case explanation (options q ! nat (int (length (options q)) + sel)) of
                   None \<Rightarrow> []
                 | Some e \<Rightarrow> e))"
    using assms
    by (simp add: format_result_text_def py_index_def Let_def join_snoc result_lines_nonempty
          get_explanation_def)
  have b: "marker_of (result_lines q sel ! Suc i) \<noteq> MARK_WRONG" if "i < length (options q)" for i
  proof -
    from assms(1) have "int i \<noteq> sel" by simp
    then have "expected_marker (options q) sel i \<noteq> MARK_WRONG"
      using markers_distinct by (simp add: expected_marker_def)
    then show ?thesis using that by (simp add: nth_result_lines marker_of_expected)
  qed
  from a b show ?thesis by blast
qed

theorem render_negative_index_witness:
  "(- 2 :: int) < 0 \<and> - int (length (options example_question)) \<le> - 2
     \<and> format_result_text example_question (- 2) =
         Inr (join NL (result_lines example_question (- 2)) @ NL @ NL @ MARK_BULB @
              '' basic addition'')
     \<and> marker_of (result_lines example_question (- 2) ! Suc 1) \<noteq> MARK_WRONG
     \<and> (- 1 :: int) < 0 \<and> - int (length (options example_question)) \<le> - 1
     \<and> format_result_text example_question (- 1) =
         Inr (join NL (result_lines example_question (- 1)) @ NL @ NL @ MARK_BULB @ '' '')"
proof -
  have h: "(- 2 :: int) < 0" "- int (length (options example_question)) \<le> - 2"
    by (simp_all add: example_question_def)
  have h': "(- 1 :: int) < 0" "- int (length (options example_question)) \<le> - 1"
    by (simp_all add: example_question_def)
  have n: "explanation (options example_question ! nat (int (length (options example_question)) + - 2))
             = Some ''basic addition''"
    by (simp add: example_question_def)
  have n': "explanation (options example_question ! nat (int (length (options example_question)) + - 1))
             = None"
    by (simp add: example_question_def)
  have i: "1 < length (options example_question)"
    by (simp add: example_question_def)
  note t = render_negative_index [OF h, unfolded n]
  from t have a: "format_result_text example_question (- 2) =
         Inr (join NL (result_lines example_question (- 2)) @ NL @ NL @ MARK_BULB @
              '' basic addition'')"
    by simp
  from t have "\<forall>i < length (options example_question).
      marker_of (result_lines example_question (- 2) ! Suc i) \<noteq> MARK_WRONG"
    by (rule conjunct2)
  with i have b: "marker_of (result_lines example_question (- 2) ! Suc 1) \<noteq> MARK_WRONG"
    by blast
  from render_negative_index [OF h', unfolded n'] have c: "format_result_text example_question (- 1) =
         Inr (join NL (result_lines example_question (- 1)) @ NL @ NL @ MARK_BULB @ '' '')"
    by simp
  from h h' a b c show ?thesis by blast
qed

end
